theory Spec2Isabelle
  imports Complex_Main
begin

section \<open>Data model\<close>

text \<open>
  A calendar date \<open>YYYY-MM-DD\<close> is an integer, its day number (days since 1970-01-01;
  2024-01-01 is day 19723). A drive carries the date written in its \<open>date\<close> string; two
  drives of the same date carry the same string. A drive whose \<open>date\<close> is missing,
  \<open>null\<close> or empty (falsy) has \<open>date = None\<close>; a string that is not a date does not
  occur.

  A JavaScript number that holds hours or minutes is a finite IEEE 754 double: a rational
  that the rounding \<open>fl\<close> below leaves as it is. Sums and quotients of doubles are rounded
  by \<open>fl\<close>.
\<close>

record drive =
  drive_id :: string
  date :: "int option"
  startTime :: string
  endTime :: string
  duration :: rat
  isNightDrive :: bool

record user =
  licenseType :: "string option"
  licenseDate :: "string option"
  goalDayHours :: rat
  goalNightHours :: rat
  completedDayHours :: rat
  completedNightHours :: rat
  onboardingComplete :: bool

record streaks =
  current :: int
  longest :: int
  lastDriveDate :: "int option"
  freezeDaysUsed :: int
  freezeDaysThisMonth :: int
  lastFreezeReset :: "int option"

record settings =
  nightTimeStart :: string
  nightTimeEnd :: string
  backupReminder :: bool
  lastBackupDate :: "string option"
  temperatureUnit :: string

record state =
  user :: user
  drives :: "drive list"
  streaks :: streaks
  settings :: settings
  loading :: bool
  error :: "string option"

text \<open>
  Payloads that are spread over an existing object: a field that the payload carries
  is \<open>Some v\<close> and replaces the old value, a field it lacks is \<open>None\<close>.
\<close>

record user_patch =
  p_licenseType :: "string option option"
  p_licenseDate :: "string option option"
  p_goalDayHours :: "rat option"
  p_goalNightHours :: "rat option"
  p_completedDayHours :: "rat option"
  p_completedNightHours :: "rat option"
  p_onboardingComplete :: "bool option"

record streaks_patch =
  p_current :: "int option"
  p_longest :: "int option"
  p_lastDriveDate :: "int option option"
  p_freezeDaysUsed :: "int option"
  p_freezeDaysThisMonth :: "int option"
  p_lastFreezeReset :: "int option option"

record settings_patch =
  p_nightTimeStart :: "string option"
  p_nightTimeEnd :: "string option"
  p_backupReminder :: "bool option"
  p_lastBackupDate :: "string option option"
  p_temperatureUnit :: "string option"

record state_patch =
  p_user :: "user option"
  p_drives :: "drive list option"
  p_streaks :: "streaks option"
  p_settings :: "settings option"

datatype action =
    LOAD_DATA state_patch
  | SET_USER_INFO user_patch
  | ADD_DRIVE drive
  | UPDATE_DRIVE drive
  | DELETE_DRIVE string
  | UPDATE_STREAKS streaks_patch
  | USE_FREEZE_DAY
  | UPDATE_SETTINGS settings_patch
  | COMPLETE_ONBOARDING
  | RESET_DATA
  | OTHER string

definition spread :: "'a option \<Rightarrow> 'a \<Rightarrow> 'a" where
  "spread p old = (case p of None \<Rightarrow> old | Some v \<Rightarrow> v)"

definition spread_user :: "user \<Rightarrow> user_patch \<Rightarrow> user" where
  "spread_user u p =
     \<lparr> licenseType = spread (p_licenseType p) (licenseType u),
       licenseDate = spread (p_licenseDate p) (licenseDate u),
       goalDayHours = spread (p_goalDayHours p) (goalDayHours u),
       goalNightHours = spread (p_goalNightHours p) (goalNightHours u),
       completedDayHours = spread (p_completedDayHours p) (completedDayHours u),
       completedNightHours = spread (p_completedNightHours p) (completedNightHours u),
       onboardingComplete = spread (p_onboardingComplete p) (onboardingComplete u) \<rparr>"

definition spread_streaks :: "streaks \<Rightarrow> streaks_patch \<Rightarrow> streaks" where
  "spread_streaks k p =
     \<lparr> current = spread (p_current p) (current k),
       longest = spread (p_longest p) (longest k),
       lastDriveDate = spread (p_lastDriveDate p) (lastDriveDate k),
       freezeDaysUsed = spread (p_freezeDaysUsed p) (freezeDaysUsed k),
       freezeDaysThisMonth = spread (p_freezeDaysThisMonth p) (freezeDaysThisMonth k),
       lastFreezeReset = spread (p_lastFreezeReset p) (lastFreezeReset k) \<rparr>"

definition spread_settings :: "settings \<Rightarrow> settings_patch \<Rightarrow> settings" where
  "spread_settings g p =
     \<lparr> nightTimeStart = spread (p_nightTimeStart p) (nightTimeStart g),
       nightTimeEnd = spread (p_nightTimeEnd p) (nightTimeEnd g),
       backupReminder = spread (p_backupReminder p) (backupReminder g),
       lastBackupDate = spread (p_lastBackupDate p) (lastBackupDate g),
       temperatureUnit = spread (p_temperatureUnit p) (temperatureUnit g) \<rparr>"

definition initialState :: state where
  "initialState =
     \<lparr> user = \<lparr> licenseType = None, licenseDate = None, goalDayHours = 50,
                goalNightHours = 10, completedDayHours = 0, completedNightHours = 0,
                onboardingComplete = False \<rparr>,
       drives = [],
       streaks = \<lparr> current = 0, longest = 0, lastDriveDate = None, freezeDaysUsed = 0,
                   freezeDaysThisMonth = 0, lastFreezeReset = None \<rparr>,
       settings = \<lparr> nightTimeStart = ''18:00'', nightTimeEnd = ''06:00'',
                    backupReminder = True, lastBackupDate = None,
                    temperatureUnit = ''metric'' \<rparr>,
       loading = True,
       error = None \<rparr>"

section \<open>Double arithmetic\<close>

text \<open>\<open>bits n\<close> is the number of binary digits of \<open>n\<close>.\<close>

fun bits :: "nat \<Rightarrow> nat" where
  "bits n = (if n = 0 then 0 else Suc (bits (n div 2)))"

declare bits.simps [simp del]

definition pow2 :: "int \<Rightarrow> rat" where
  "pow2 e = (if 0 \<le> e then 2 ^ nat e else 1 / 2 ^ nat (- e))"

text \<open>The binary exponent of a positive rational \<open>a\<close>: \<open>pow2 e \<le> a < pow2 (e + 1)\<close>.\<close>

definition exponent :: "rat \<Rightarrow> int" where
  "exponent a =
     (if 1 \<le> a then int (bits (nat \<lfloor>a\<rfloor>)) - 1
      else - int (bits (nat (\<lceil>1 / a\<rceil> - 1))))"

definition roundTiesToEven :: "rat \<Rightarrow> int" where
  "roundTiesToEven r =
     (let f = \<lfloor>r\<rfloor>; d = r - of_int f
      in if d < 1 / 2 then f
         else if 1 / 2 < d then f + 1
         else if even f then f else f + 1)"

text \<open>
  \<open>fl x\<close>: the double nearest to \<open>x\<close>, ties to the even significand, with 53 significant
  bits. Overflow to \<open>Infinity\<close> and the subnormal range are left out: the hour totals of
  a document stay far from both.
\<close>

definition fl :: "rat \<Rightarrow> rat" where
  "fl x =
     (if x = 0 then 0
      else
        let a = \<bar>x\<bar>;
            ulp = pow2 (exponent a - 52)
        in sgn x * of_int (roundTiesToEven (a / ulp)) * ulp)"

definition isDouble :: "rat \<Rightarrow> bool" where
  "isDouble x = (fl x = x)"

text \<open>The operators \<open>+\<close> and \<open>/\<close> of JavaScript on two doubles.\<close>

definition double_add :: "rat \<Rightarrow> rat \<Rightarrow> rat" where
  "double_add a b = fl (a + b)"

definition double_div :: "rat \<Rightarrow> rat \<Rightarrow> rat" where
  "double_div a b = fl (a / b)"

section \<open>Streak engine (\<open>src/utils/streaks.js\<close>)\<close>

text \<open>
  \<open>[...new Set(xs)]\<close>: the elements of \<open>xs\<close> in the order of their first occurrence.
\<close>

definition Set_values :: "'a list \<Rightarrow> 'a list" where
  "Set_values xs = fold (\<lambda>x acc. if x \<in> set acc then acc else acc @ [x]) xs []"

text \<open>
  The day number of the date a drive carries: \<open>new Date(drive.date)\<close> is the UTC midnight
  of that day.
\<close>

definition dayOf :: "drive \<Rightarrow> int" where
  "dayOf d = (case date d of Some n \<Rightarrow> n | None \<Rightarrow> 0)"

text \<open>
  \<open>new Date(dateStr)\<close> followed by \<open>setHours(0, 0, 0, 0)\<close>: the local day on which the UTC
  midnight of a date falls, as the day number of that local date. \<open>utcOffset\<close> is the
  number of minutes local time is ahead of UTC (negative west of UTC), taken as fixed:
  a zone at or east of UTC keeps the date, a zone west of UTC moves it to the day before.
\<close>

definition localDay :: "int \<Rightarrow> int \<Rightarrow> int" where
  "localDay utcOffset day = (day * 1440 + utcOffset) div 1440"

text \<open>
  The \<open>for ... of\<close> loop of \<open>calculateCurrentStreak\<close>; \<open>yesterday\<close> is fixed before
  the loop, \<open>checkDate\<close> and \<open>streak\<close> are the loop's variables, \<open>break\<close> returns.
  \<open>today\<close>, \<open>yesterday\<close> and \<open>checkDate\<close> are local midnights, as day numbers of the
  local date.
\<close>

fun streak_loop :: "int \<Rightarrow> int \<Rightarrow> int \<Rightarrow> nat \<Rightarrow> int list \<Rightarrow> nat" where
  "streak_loop utcOffset yesterday checkDate streak [] = streak"
| "streak_loop utcOffset yesterday checkDate streak (dateStr # rest) =
     (let driveDate = localDay utcOffset dateStr
      in if driveDate = checkDate \<or> driveDate = yesterday
         then streak_loop utcOffset yesterday (checkDate - 1) (streak + 1) rest
         else if driveDate < checkDate then streak
         else streak_loop utcOffset yesterday checkDate streak rest)"

text \<open>
  \<open>calculateCurrentStreak utcOffset today drives\<close>: \<open>today\<close> is the day number of the
  local date at the moment of the call.
\<close>

definition calculateCurrentStreak :: "int \<Rightarrow> int \<Rightarrow> drive list \<Rightarrow> nat" where
  "calculateCurrentStreak utcOffset today drvs =
     (if drvs = [] then 0
      else
        let sortedDrives = sort_key (\<lambda>d. - dayOf d) (filter (\<lambda>d. date d \<noteq> None) drvs)
        in if sortedDrives = [] then 0
           else
             let yesterday = today - 1;
                 uniqueDates = Set_values (map dayOf sortedDrives)
             in streak_loop utcOffset yesterday today 0 uniqueDates)"

text \<open>
  The indexed loop of \<open>calculateLongestStreak\<close> from \<open>i = 1\<close>; \<open>prevDate\<close> is
  \<open>uniqueDates[i - 1]\<close>, and \<open>diffDays\<close> is the difference of two UTC midnights in days.
\<close>

fun longest_loop :: "int \<Rightarrow> nat \<Rightarrow> nat \<Rightarrow> int list \<Rightarrow> nat" where
  "longest_loop prevDate currentStreak longestStreak [] = longestStreak"
| "longest_loop prevDate currentStreak longestStreak (currentDate # rest) =
     (if currentDate - prevDate = 1
      then longest_loop currentDate (currentStreak + 1)
             (max longestStreak (currentStreak + 1)) rest
      else longest_loop currentDate 1 longestStreak rest)"

definition calculateLongestStreak :: "drive list \<Rightarrow> nat" where
  "calculateLongestStreak drvs =
     (if drvs = [] then 0
      else
        let uniqueDates =
              sort (map the (filter (\<lambda>dateStr. dateStr \<noteq> None) (Set_values (map date drvs))))
        in case uniqueDates of
             [] \<Rightarrow> 0
           | first # rest \<Rightarrow> longest_loop first 1 1 rest)"

definition canUseFreezeDay :: "int \<Rightarrow> int \<Rightarrow> bool" where
  "canUseFreezeDay freezeDaysUsedThisMonth maxFreezeDaysPerMonth =
     (freezeDaysUsedThisMonth < maxFreezeDaysPerMonth)"

section \<open>The reducer (\<open>src/contexts/DrivingContext.js\<close>)\<close>

text \<open>
  \<open>.filter(d => ...).reduce((sum, d) => sum + d.duration / 60, 0)\<close>, in doubles.
\<close>

definition hoursOf :: "bool \<Rightarrow> drive list \<Rightarrow> rat" where
  "hoursOf night ds =
     fold (\<lambda>d sum. double_add sum (double_div (duration d) 60))
          (filter (\<lambda>d. isNightDrive d = night) ds) 0"

text \<open>
  \<open>drivingReducer utcOffset today state action\<close>: \<open>utcOffset\<close> and \<open>today\<close> are the zone
  and the clock's local date at the moment the reducer runs (read by
  \<open>calculateCurrentStreak\<close>).
\<close>

fun drivingReducer :: "int \<Rightarrow> int \<Rightarrow> state \<Rightarrow> action \<Rightarrow> state" where
  "drivingReducer utcOffset today state (LOAD_DATA payload) =
     \<lparr> user = spread (p_user payload) (user state),
       drives = spread (p_drives payload) (drives state),
       streaks = spread (p_streaks payload) (streaks state),
       settings = spread (p_settings payload) (settings state),
       loading = False,
       error = None \<rparr>"
| "drivingReducer utcOffset today state (SET_USER_INFO payload) =
     state\<lparr> user := spread_user (user state) payload \<rparr>"
| "drivingReducer utcOffset today state (ADD_DRIVE payload) =
     (let newDrives = drives state @ [payload];
          updatedStreaks = (streaks state)
            \<lparr> current := int (calculateCurrentStreak utcOffset today newDrives),
              longest := max (longest (streaks state))
                             (int (calculateLongestStreak newDrives)),
              lastDriveDate := date payload \<rparr>
      in state
         \<lparr> drives := newDrives,
           streaks := updatedStreaks,
           user := (user state)
             \<lparr> completedDayHours := double_add (completedDayHours (user state))
                  (if isNightDrive payload then 0 else double_div (duration payload) 60),
               completedNightHours := double_add (completedNightHours (user state))
                  (if isNightDrive payload then double_div (duration payload) 60 else 0)
             \<rparr> \<rparr>)"
| "drivingReducer utcOffset today state (UPDATE_DRIVE payload) =
     (let updatedDrives =
            map (\<lambda>drive. if drive_id drive = drive_id payload then payload else drive)
                (drives state);
          dayHours = hoursOf False updatedDrives;
          nightHours = hoursOf True updatedDrives
      in state
         \<lparr> drives := updatedDrives,
           streaks := (streaks state)
             \<lparr> current := int (calculateCurrentStreak utcOffset today updatedDrives),
               longest := int (calculateLongestStreak updatedDrives) \<rparr>,
           user := (user state)
             \<lparr> completedDayHours := dayHours, completedNightHours := nightHours \<rparr> \<rparr>)"
| "drivingReducer utcOffset today state (DELETE_DRIVE payload) =
     (let filteredDrives = filter (\<lambda>drive. drive_id drive \<noteq> payload) (drives state);
          remainingDayHours = hoursOf False filteredDrives;
          remainingNightHours = hoursOf True filteredDrives
      in state
         \<lparr> drives := filteredDrives,
           streaks := (streaks state)
             \<lparr> current := int (calculateCurrentStreak utcOffset today filteredDrives),
               longest := int (calculateLongestStreak filteredDrives) \<rparr>,
           user := (user state)
             \<lparr> completedDayHours := remainingDayHours,
               completedNightHours := remainingNightHours \<rparr> \<rparr>)"
| "drivingReducer utcOffset today state (UPDATE_STREAKS payload) =
     state\<lparr> streaks := spread_streaks (streaks state) payload \<rparr>"
| "drivingReducer utcOffset today state USE_FREEZE_DAY =
     state\<lparr> streaks := (streaks state)
       \<lparr> freezeDaysUsed := freezeDaysUsed (streaks state) + 1,
         freezeDaysThisMonth := freezeDaysThisMonth (streaks state) + 1 \<rparr> \<rparr>"
| "drivingReducer utcOffset today state (UPDATE_SETTINGS payload) =
     state\<lparr> settings := spread_settings (settings state) payload \<rparr>"
| "drivingReducer utcOffset today state COMPLETE_ONBOARDING =
     state\<lparr> user := (user state)\<lparr> onboardingComplete := True \<rparr> \<rparr>"
| "drivingReducer utcOffset today state RESET_DATA = initialState\<lparr> loading := False \<rparr>"
| "drivingReducer utcOffset today state (OTHER other) = state"


fun run :: "int \<Rightarrow> state \<Rightarrow> (int \<times> action) list \<Rightarrow> state" where
  "run utcOffset s [] = s"
| "run utcOffset s ((today, a) # steps) =
     run utcOffset (drivingReducer utcOffset today s a) steps"

text \<open>A drive with the given id, date, minutes and night flag, for concrete inputs.\<close>

definition sample_drive :: "string \<Rightarrow> int \<Rightarrow> rat \<Rightarrow> bool \<Rightarrow> drive" where
  "sample_drive i day mins night =
     \<lparr> drive_id = i, date = Some day, startTime = ''10:00'', endTime = ''11:00'',
       duration = mins, isNightDrive = night \<rparr>"

section \<open>The streak walk as the specification words it\<close>

text \<open>The set of dates that at least one drive carries.\<close>

definition driveDays :: "drive list \<Rightarrow> int set" where
  "driveDays drvs = set (map dayOf (filter (\<lambda>d. date d \<noteq> None) drvs))"

text \<open>
  The walk of the specification over the unique dates in descending order, with no
  zone: a date equal
  to the check date or to the check date minus one day continues the streak (the check
  date moves back one day, the streak grows by one); a date strictly earlier than the
  check date minus one stops the walk; a later date is passed over.
\<close>

fun spec_walk :: "int \<Rightarrow> nat \<Rightarrow> int list \<Rightarrow> nat" where
  "spec_walk checkDate streak [] = streak"
| "spec_walk checkDate streak (d # rest) =
     (if d = checkDate \<or> d = checkDate - 1
      then spec_walk (checkDate - 1) (streak + 1) rest
      else if d < checkDate - 1 then streak
      else spec_walk checkDate streak rest)"

definition spec_currentStreak :: "int \<Rightarrow> drive list \<Rightarrow> nat" where
  "spec_currentStreak today drvs =
     (if drvs = [] then 0
      else spec_walk today 0 (rev (sorted_list_of_set (driveDays drvs))))"

text \<open>
  A drive is dated strictly after \<open>today\<close>: the date it carries is later than the local
  date \<open>today\<close>.
\<close>

definition futureDrive :: "int \<Rightarrow> drive \<Rightarrow> bool" where
  "futureDrive today d = (case date d of Some n \<Rightarrow> today < n | None \<Rightarrow> False)"

section \<open>Time utilities (\<open>src/utils/time.js\<close>)\<close>

text \<open>
  A JavaScript number as far as \<open>timeToMinutes\<close> can produce one: \<open>NaN\<close>, the two
  infinities, or a finite value (taken exactly). \<open>undefined\<close> is \<open>None\<close> of
  \<open>jsnum option\<close>; arithmetic turns it into \<open>NaN\<close>.
\<close>

datatype jsnum = NaN | PosInf | NegInf | Num rat

fun js_mul :: "jsnum \<Rightarrow> jsnum \<Rightarrow> jsnum" where
  "js_mul (Num a) (Num b) = Num (a * b)"
| "js_mul NaN y = NaN"
| "js_mul x NaN = NaN"
| "js_mul PosInf (Num b) = (if b = 0 then NaN else if 0 < b then PosInf else NegInf)"
| "js_mul NegInf (Num b) = (if b = 0 then NaN else if 0 < b then NegInf else PosInf)"
| "js_mul (Num a) PosInf = (if a = 0 then NaN else if 0 < a then PosInf else NegInf)"
| "js_mul (Num a) NegInf = (if a = 0 then NaN else if 0 < a then NegInf else PosInf)"
| "js_mul PosInf PosInf = PosInf"
| "js_mul NegInf NegInf = PosInf"
| "js_mul PosInf NegInf = NegInf"
| "js_mul NegInf PosInf = NegInf"

fun js_add :: "jsnum \<Rightarrow> jsnum \<Rightarrow> jsnum" where
  "js_add (Num a) (Num b) = Num (a + b)"
| "js_add NaN y = NaN"
| "js_add x NaN = NaN"
| "js_add PosInf NegInf = NaN"
| "js_add NegInf PosInf = NaN"
| "js_add PosInf y = PosInf"
| "js_add NegInf y = NegInf"
| "js_add x PosInf = PosInf"
| "js_add x NegInf = NegInf"

definition toNumber :: "jsnum option \<Rightarrow> jsnum" where
  "toNumber v = (case v of None \<Rightarrow> NaN | Some n \<Rightarrow> n)"

text \<open>\<open>s.split(c)\<close> for a one-character separator; the empty string gives \<open>[""]\<close>.\<close>

fun split :: "char \<Rightarrow> string \<Rightarrow> string list" where
  "split c [] = [[]]"
| "split c (x # xs) =
     (if x = c then [] # split c xs
      else (case split c xs of [] \<Rightarrow> [[x]] | w # ws \<Rightarrow> (x # w) # ws))"

text \<open>\<open>arr[i]\<close>: \<open>undefined\<close> beyond the end of the array.\<close>

definition element :: "'a list \<Rightarrow> nat \<Rightarrow> 'a option" where
  "element arr i = (if i < length arr then Some (arr ! i) else None)"

text \<open>
  \<open>timeToMinutes\<close>. The host's conversion \<open>Number\<close> from strings is the parameter
  \<open>number\<close>; the array destructuring reads the elements 0 and 1.
\<close>

definition timeToMinutes :: "(string \<Rightarrow> jsnum) \<Rightarrow> string \<Rightarrow> jsnum" where
  "timeToMinutes number time =
     (let parts = map number (split CHR '':'' time);
          hours = element parts 0;
          minutes = element parts 1
      in js_add (js_mul (toNumber hours) (Num 60)) (toNumber minutes))"

definition digit :: "char \<Rightarrow> bool" where
  "digit c = (c \<in> set ''0123456789'')"

definition digit_value :: "char \<Rightarrow> nat" where
  "digit_value c = of_char c - 48"

definition decimal :: "string \<Rightarrow> nat" where
  "decimal s = fold (\<lambda>c n. 10 * n + digit_value c) s 0"

text \<open>
  What the theorems use of the host's \<open>Number\<close>: the empty string converts to 0 and a
  string of one or two decimal digits to its decimal value.
\<close>

definition Number_on_digits :: "(string \<Rightarrow> jsnum) \<Rightarrow> bool" where
  "Number_on_digits number =
     (number [] = Num 0 \<and>
      (\<forall>a. digit a \<longrightarrow> number [a] = Num (of_nat (decimal [a]))) \<and>
      (\<forall>a b. digit a \<and> digit b \<longrightarrow> number [a, b] = Num (of_nat (decimal [a, b]))))"

text \<open>
  An instance of \<open>Number\<close> that is the host's on the empty string and on strings of
  decimal digits. On every other string it answers \<open>NaN\<close>, which the host does not
  always do (blanks, signs, fractions, exponents, radix prefixes, \<open>Infinity\<close>); it is
  applied to the empty string and to digit strings only.
\<close>

definition Number_digits :: "string \<Rightarrow> jsnum" where
  "Number_digits s =
     (if s = [] then Num 0
      else if list_all digit s then Num (of_nat (decimal s))
      else NaN)"

text \<open>
  \<open>isValidTime\<close>: the regular expression
  \<^verbatim>\<open>^([0-1]?[0-9]|2[0-3]):[0-5][0-9]$\<close> matches exactly the strings \<open>H:MM\<close> and
  \<open>HH:MM\<close> below.
\<close>

definition isValidTime :: "string \<Rightarrow> bool" where
  "isValidTime time =
     (case time of
        [h, c, m1, m2] \<Rightarrow>
          digit h \<and> c = CHR '':'' \<and> m1 \<in> set ''012345'' \<and> digit m2
      | [h1, h2, c, m1, m2] \<Rightarrow>
          ((h1 \<in> set ''01'' \<and> digit h2) \<or> (h1 = CHR ''2'' \<and> h2 \<in> set ''0123'')) \<and>
          c = CHR '':'' \<and> m1 \<in> set ''012345'' \<and> digit m2
      | _ \<Rightarrow> False)"

section \<open>Persistent store (\<open>src/utils/storage.js\<close>)\<close>

text \<open>
  A parsed JSON value. In an object a later entry for a key wins, as in \<open>JSON.parse\<close>.
  A file's text is either one that \<open>JSON.parse\<close> rejects or the serialisation of a
  value: \<open>JSON.parse\<close> of \<open>JSON.stringify j\<close> is \<open>j\<close>.
\<close>

datatype json =
    JNull
  | JBool bool
  | JNum rat
  | JStr string
  | JArr "json list"
  | JObj "(string \<times> json) list"

datatype file_text = Unparseable string | Serialized json

datatype path = DATA_DIR | MAIN_DATA_FILE | BACKUP_DATA_FILE

datatype io_op =
    GetInfo path
  | MakeDirectory
  | ReadAsString path
  | WriteAsString path
  | Copy path path

datatype exn = IOError io_op | SyntaxError | TypeError | InvalidDataStructure

text \<open>
  The data directory with its two files. The environment decides which file-system
  calls throw: \<open>faults op\<close> holds of the calls that do. A call that throws changes
  nothing; reading or copying a file that does not exist throws.
\<close>

record files =
  dir :: bool
  main_file :: "file_text option"
  backup_file :: "file_text option"

definition content :: "files \<Rightarrow> path \<Rightarrow> file_text option" where
  "content fs p =
     (case p of DATA_DIR \<Rightarrow> None | MAIN_DATA_FILE \<Rightarrow> main_file fs
      | BACKUP_DATA_FILE \<Rightarrow> backup_file fs)"

definition put :: "files \<Rightarrow> path \<Rightarrow> file_text \<Rightarrow> files" where
  "put fs p t =
     (case p of DATA_DIR \<Rightarrow> fs | MAIN_DATA_FILE \<Rightarrow> fs\<lparr> main_file := Some t \<rparr>
      | BACKUP_DATA_FILE \<Rightarrow> fs\<lparr> backup_file := Some t \<rparr>)"

definition getInfoAsync :: "(io_op \<Rightarrow> bool) \<Rightarrow> path \<Rightarrow> files \<Rightarrow> exn + bool" where
  "getInfoAsync faults p fs =
     (if faults (GetInfo p) then Inl (IOError (GetInfo p))
      else Inr (case p of DATA_DIR \<Rightarrow> dir fs | _ \<Rightarrow> content fs p \<noteq> None))"

definition makeDirectoryAsync :: "(io_op \<Rightarrow> bool) \<Rightarrow> files \<Rightarrow> (exn + unit) \<times> files" where
  "makeDirectoryAsync faults fs =
     (if faults MakeDirectory then (Inl (IOError MakeDirectory), fs)
      else (Inr (), fs\<lparr> dir := True \<rparr>))"

definition readAsStringAsync :: "(io_op \<Rightarrow> bool) \<Rightarrow> path \<Rightarrow> files \<Rightarrow> exn + file_text" where
  "readAsStringAsync faults p fs =
     (if faults (ReadAsString p) then Inl (IOError (ReadAsString p))
      else (case content fs p of None \<Rightarrow> Inl (IOError (ReadAsString p)) | Some t \<Rightarrow> Inr t))"

definition writeAsStringAsync ::
    "(io_op \<Rightarrow> bool) \<Rightarrow> path \<Rightarrow> file_text \<Rightarrow> files \<Rightarrow> (exn + unit) \<times> files" where
  "writeAsStringAsync faults p t fs =
     (if faults (WriteAsString p) then (Inl (IOError (WriteAsString p)), fs)
      else (Inr (), put fs p t))"

definition copyAsync ::
    "(io_op \<Rightarrow> bool) \<Rightarrow> path \<Rightarrow> path \<Rightarrow> files \<Rightarrow> (exn + unit) \<times> files" where
  "copyAsync faults src dst fs =
     (if faults (Copy src dst) then (Inl (IOError (Copy src dst)), fs)
      else (case content fs src of
              None \<Rightarrow> (Inl (IOError (Copy src dst)), fs)
            | Some t \<Rightarrow> (Inr (), put fs dst t)))"

definition JSON_parse :: "file_text \<Rightarrow> exn + json" where
  "JSON_parse t = (case t of Unparseable s \<Rightarrow> Inl SyntaxError | Serialized j \<Rightarrow> Inr j)"

definition JSON_stringify :: "json \<Rightarrow> file_text" where
  "JSON_stringify j = Serialized j"

definition DEFAULT_DATA :: json where
  "DEFAULT_DATA =
     JObj [
       (''user'', JObj [
          (''licenseType'', JNull), (''licenseDate'', JNull),
          (''goalDayHours'', JNum 50), (''goalNightHours'', JNum 10),
          (''completedDayHours'', JNum 0), (''completedNightHours'', JNum 0),
          (''onboardingComplete'', JBool False)]),
       (''drives'', JArr []),
       (''streaks'', JObj [
          (''current'', JNum 0), (''longest'', JNum 0), (''lastDriveDate'', JNull),
          (''freezeDaysUsed'', JNum 0), (''freezeDaysThisMonth'', JNum 0)]),
       (''settings'', JObj [
          (''nightTimeStart'', JStr ''18:00''), (''nightTimeEnd'', JStr ''06:00''),
          (''backupReminder'', JBool True), (''lastBackupDate'', JNull)]),
       (''version'', JStr ''1.0.1'')]"

definition ensureDirectoryExists :: "(io_op \<Rightarrow> bool) \<Rightarrow> files \<Rightarrow> (exn + unit) \<times> files" where
  "ensureDirectoryExists faults fs =
     (case getInfoAsync faults DATA_DIR fs of
        Inl e \<Rightarrow> (Inl e, fs)
      | Inr dirExists \<Rightarrow>
          if \<not> dirExists then makeDirectoryAsync faults fs else (Inr (), fs))"

text \<open>
  \<open>saveData\<close>: the body of the \<open>try\<close> runs until a call throws; the \<open>catch\<close> returns
  \<open>false\<close> with the files as they are at that point.
\<close>

definition saveData :: "(io_op \<Rightarrow> bool) \<Rightarrow> files \<Rightarrow> json \<Rightarrow> bool \<times> files" where
  "saveData faults fs data =
     (case ensureDirectoryExists faults fs of
        (Inl e, fs1) \<Rightarrow> (False, fs1)
      | (Inr u, fs1) \<Rightarrow>
          (case getInfoAsync faults MAIN_DATA_FILE fs1 of
             Inl e \<Rightarrow> (False, fs1)
           | Inr mainExists \<Rightarrow>
               (case (if mainExists
                      then copyAsync faults MAIN_DATA_FILE BACKUP_DATA_FILE fs1
                      else (Inr (), fs1)) of
                  (Inl e, fs2) \<Rightarrow> (False, fs2)
                | (Inr u, fs2) \<Rightarrow>
                    (case writeAsStringAsync faults MAIN_DATA_FILE (JSON_stringify data) fs2 of
                       (Inl e, fs3) \<Rightarrow> (False, fs3)
                     | (Inr u, fs3) \<Rightarrow> (True, fs3)))))"

text \<open>
  Property access \<open>data.k\<close>: throws a \<open>TypeError\<close> on \<open>null\<close>, is \<open>undefined\<close>
  (\<open>None\<close>) on a value without the property. \<open>truthy\<close> is JavaScript's truthiness.
\<close>

definition property :: "json \<Rightarrow> string \<Rightarrow> exn + json option" where
  "property data k =
     (case data of
        JNull \<Rightarrow> Inl TypeError
      | JObj kvs \<Rightarrow> Inr (map_of (rev kvs) k)
      | _ \<Rightarrow> Inr None)"

definition truthy :: "json option \<Rightarrow> bool" where
  "truthy v =
     (case v of
        None \<Rightarrow> False
      | Some JNull \<Rightarrow> False
      | Some (JBool b) \<Rightarrow> b
      | Some (JNum n) \<Rightarrow> n \<noteq> 0
      | Some (JStr s) \<Rightarrow> s \<noteq> []
      | Some (JArr xs) \<Rightarrow> True
      | Some (JObj kvs) \<Rightarrow> True)"

text \<open>
  The structure check of \<open>loadData\<close> on the primary file:
  \<^verbatim>\<open>if (!data.user || !data.drives || !data.streaks || !data.settings) throw ...\<close>
\<close>

definition validate :: "json \<Rightarrow> exn + unit" where
  "validate data =
     (case property data ''user'' of
        Inl e \<Rightarrow> Inl e
      | Inr userV \<Rightarrow>
          if \<not> truthy userV then Inl InvalidDataStructure
          else (case property data ''drives'' of
            Inl e \<Rightarrow> Inl e
          | Inr drivesV \<Rightarrow>
              if \<not> truthy drivesV then Inl InvalidDataStructure
              else (case property data ''streaks'' of
                Inl e \<Rightarrow> Inl e
              | Inr streaksV \<Rightarrow>
                  if \<not> truthy streaksV then Inl InvalidDataStructure
                  else (case property data ''settings'' of
                    Inl e \<Rightarrow> Inl e
                  | Inr settingsV \<Rightarrow>
                      if \<not> truthy settingsV then Inl InvalidDataStructure
                      else Inr ()))))"

text \<open>The outer \<open>try\<close> block of \<open>loadData\<close>: the primary file.\<close>

definition loadData_main :: "(io_op \<Rightarrow> bool) \<Rightarrow> files \<Rightarrow> (exn + json) \<times> files" where
  "loadData_main faults fs =
     (case ensureDirectoryExists faults fs of
        (Inl e, fs1) \<Rightarrow> (Inl e, fs1)
      | (Inr u, fs1) \<Rightarrow>
          (case getInfoAsync faults MAIN_DATA_FILE fs1 of
             Inl e \<Rightarrow> (Inl e, fs1)
           | Inr mainExists \<Rightarrow>
               if \<not> mainExists
               then (Inr DEFAULT_DATA, snd (saveData faults fs1 DEFAULT_DATA))
               else
                 (case readAsStringAsync faults MAIN_DATA_FILE fs1 of
                    Inl e \<Rightarrow> (Inl e, fs1)
                  | Inr dataString \<Rightarrow>
                      (case JSON_parse dataString of
                         Inl e \<Rightarrow> (Inl e, fs1)
                       | Inr data \<Rightarrow>
                           (case validate data of
                              Inl e \<Rightarrow> (Inl e, fs1)
                            | Inr u \<Rightarrow> (Inr data, fs1))))))"

text \<open>
  The inner \<open>try\<close> block in the \<open>catch\<close> of \<open>loadData\<close>: the backup file.
  \<open>Inr (Some backupData)\<close> is its \<open>return backupData\<close>, \<open>Inr None\<close> is falling
  through when the backup does not exist.
\<close>

definition loadData_backup ::
    "(io_op \<Rightarrow> bool) \<Rightarrow> files \<Rightarrow> (exn + json option) \<times> files" where
  "loadData_backup faults fs =
     (case getInfoAsync faults BACKUP_DATA_FILE fs of
        Inl e \<Rightarrow> (Inl e, fs)
      | Inr backupExists \<Rightarrow>
          if backupExists
          then
            (case readAsStringAsync faults BACKUP_DATA_FILE fs of
               Inl e \<Rightarrow> (Inl e, fs)
             | Inr backupString \<Rightarrow>
                 (case JSON_parse backupString of
                    Inl e \<Rightarrow> (Inl e, fs)
                  | Inr backupData \<Rightarrow>
                      (Inr (Some backupData), snd (saveData faults fs backupData))))
          else (Inr None, fs))"

definition loadData :: "(io_op \<Rightarrow> bool) \<Rightarrow> files \<Rightarrow> json \<times> files" where
  "loadData faults fs =
     (case loadData_main faults fs of
        (Inr data, fs1) \<Rightarrow> (data, fs1)
      | (Inl err, fs1) \<Rightarrow>
          (case loadData_backup faults fs1 of
             (Inr (Some backupData), fs2) \<Rightarrow> (backupData, fs2)
           | (other, fs2) \<Rightarrow> (DEFAULT_DATA, snd (saveData faults fs2 DEFAULT_DATA))))"

section \<open>Unique dates in order\<close>

lemma Set_fold_set:
  "set (fold (\<lambda>x acc. if x \<in> set acc then acc else acc @ [x]) xs acc) = set acc \<union> set xs"
  by (induction xs arbitrary: acc) auto

lemma Set_fold_distinct:
  "distinct acc \<Longrightarrow> distinct (fold (\<lambda>x acc. if x \<in> set acc then acc else acc @ [x]) xs acc)"
  by (induction xs arbitrary: acc) auto

lemma Set_fold_sorted:
  "sorted_wrt R (acc @ xs) \<Longrightarrow>
   sorted_wrt R (fold (\<lambda>x acc. if x \<in> set acc then acc else acc @ [x]) xs acc)"
proof (induction xs arbitrary: acc)
  case Nil
  then show ?case by simp
next
  case (Cons x xs)
  show ?case
  proof (cases "x \<in> set acc")
    case True
    from Cons.prems have "sorted_wrt R (acc @ xs)"
      by (auto simp: sorted_wrt_append)
    with True Cons.IH show ?thesis by simp
  next
    case False
    from Cons.prems have "sorted_wrt R ((acc @ [x]) @ xs)" by simp
    with False Cons.IH show ?thesis by simp
  qed
qed

lemma set_Set_values: "set (Set_values xs) = set xs"
  by (simp add: Set_values_def Set_fold_set)

lemma distinct_Set_values: "distinct (Set_values xs)"
  by (simp add: Set_values_def Set_fold_distinct)

lemma sorted_wrt_Set_values: "sorted_wrt R xs \<Longrightarrow> sorted_wrt R (Set_values xs)"
  by (simp add: Set_values_def Set_fold_sorted)

lemma Set_values_descending:
  fixes ys :: "int list"
  assumes "sorted (map uminus ys)"
  shows "Set_values ys = rev (sorted_list_of_set (set ys))"
proof -
  from assms have "sorted_wrt (\<lambda>a b. b \<le> a) ys"
    by (simp add: sorted_map)
  then have "sorted_wrt (\<lambda>a b. b \<le> a) (Set_values ys)"
    by (rule sorted_wrt_Set_values)
  then have "sorted (rev (Set_values ys))"
    by (simp add: sorted_wrt_rev)
  moreover have "distinct (rev (Set_values ys))"
    by (simp add: distinct_Set_values)
  moreover have "set (rev (Set_values ys)) = set (sorted_list_of_set (set ys))"
    by (simp add: set_Set_values)
  ultimately have "rev (Set_values ys) = sorted_list_of_set (set ys)"
    by (intro sorted_distinct_set_unique) simp_all
  then show ?thesis by (simp add: rev_swap)
qed

lemma uniqueDates_current:
  "Set_values (map dayOf (sort_key (\<lambda>d. - dayOf d) (filter (\<lambda>d. date d \<noteq> None) drvs)))
     = rev (sorted_list_of_set (driveDays drvs))"
proof -
  let ?s = "sort_key (\<lambda>d. - dayOf d) (filter (\<lambda>d. date d \<noteq> None) drvs)"
  have "sorted (map (\<lambda>d. - dayOf d) ?s)" by (rule sorted_sort_key)
  then have "sorted (map uminus (map dayOf ?s))" by (simp add: comp_def)
  then have "Set_values (map dayOf ?s) = rev (sorted_list_of_set (set (map dayOf ?s)))"
    by (rule Set_values_descending)
  then show ?thesis by (simp add: driveDays_def)
qed

lemma calculateCurrentStreak_walk:
  "calculateCurrentStreak z today drvs =
     streak_loop z (today - 1) today 0 (rev (sorted_list_of_set (driveDays drvs)))"
proof (cases "filter (\<lambda>d. date d \<noteq> None) drvs = []")
  case True
  then have "driveDays drvs = {}" by (simp add: driveDays_def)
  with True show ?thesis by (simp add: calculateCurrentStreak_def)
next
  case False
  then have "drvs \<noteq> []" by auto
  moreover from False have "sort_key (\<lambda>d. - dayOf d) (filter (\<lambda>d. date d \<noteq> None) drvs) \<noteq> []"
    by (metis length_sort length_0_conv)
  ultimately show ?thesis
    by (simp add: calculateCurrentStreak_def Let_def uniqueDates_current del: not_None_eq)
qed




section \<open>The two streak loops on sorted dates\<close>




lemma localDay_shift: "localDay z d = d + z div 1440"
  by (simp add: localDay_def)

lemma localDay_UTC [simp]: "localDay 0 d = d"
  by (simp add: localDay_def)

lemma localDay_east: "0 \<le> z \<Longrightarrow> z < 1440 \<Longrightarrow> localDay z d = d"
  by (simp add: localDay_shift)


lemma streak_loop_east:
  "0 \<le> z \<Longrightarrow> z < 1440 \<Longrightarrow> streak_loop z y c s ds = streak_loop 0 y c s ds"
  by (induction ds arbitrary: c s) (simp_all add: Let_def localDay_UTC localDay_east)




section \<open>The rounding is to the nearest double\<close>

text \<open>
  \<open>fl x\<close> is a 53-bit significand times a power of two (\<open>fl_significand\<close>), within half a
  unit in the last place of \<open>x\<close> (\<open>fl_error\<close>), where the unit follows from the binary exponent
  of \<open>x\<close> (\<open>exponent_bounds\<close>).
\<close>

lemma bits_bounds: "0 < n \<Longrightarrow> 2 ^ (bits n - 1) \<le> n \<and> n < 2 ^ bits n"
proof (induction n rule: bits.induct)
  case (1 n)
  let ?m = "n div 2"
  from "1.prems" have b: "bits n = Suc (bits ?m)" by (simp add: bits.simps [of n])
  show ?case
  proof (cases "?m = 0")
    case True
    with "1.prems" have "n = 1" by presburger
    moreover from True have "bits ?m = 0" by (simp add: bits.simps [of 0])
    ultimately show ?thesis using b by simp
  next
    case False
    then have m: "0 < ?m" by simp
    with "1.IH" "1.prems" have ih: "2 ^ (bits ?m - 1) \<le> ?m \<and> ?m < 2 ^ bits ?m" by simp
    from m have "bits ?m = Suc (bits (?m div 2))" by (simp add: bits.simps [of ?m])
    then have pos: "bits ?m = Suc (bits ?m - 1)" by simp
    have "(2::nat) ^ bits ?m = 2 * 2 ^ (bits ?m - 1)" by (subst pos) simp
    also have "\<dots> \<le> 2 * ?m" using ih by simp
    also have "\<dots> \<le> n" by simp
    finally have lo: "2 ^ bits ?m \<le> n" .
    have "n < 2 * (?m + 1)" by presburger
    also have "\<dots> \<le> 2 * 2 ^ bits ?m" using ih by simp
    finally have hi: "n < 2 ^ Suc (bits ?m)" by simp
    from lo hi b show ?thesis by simp
  qed
qed

lemma pow2_pos: "0 < pow2 e"
  by (simp add: pow2_def)

lemma pow2_nat: "pow2 (int k) = 2 ^ k"
  by (simp add: pow2_def)

lemma pow2_neg: "pow2 (- int k) = 1 / 2 ^ k"
proof (cases "k = 0")
  case True
  then show ?thesis by (simp add: pow2_def)
next
  case False
  then have "\<not> 0 \<le> - int k" by simp
  then show ?thesis by (simp add: pow2_def)
qed

lemma pow2_Suc: "pow2 (e + 1) = 2 * pow2 e"
proof (cases "0 \<le> e")
  case True
  then have "nat (e + 1) = Suc (nat e)" by simp
  with True show ?thesis by (simp add: pow2_def)
next
  case False
  then have "nat (- e) = Suc (nat (- (e + 1)))" by simp
  with False show ?thesis by (simp add: pow2_def)
qed

lemma exponent_bounds:
  assumes "0 < a"
  shows "pow2 (exponent a) \<le> a \<and> a < pow2 (exponent a + 1)"
proof (cases "1 \<le> a")
  case True
  let ?n = "nat \<lfloor>a\<rfloor>"
  from True have n: "0 < ?n" by simp
  from bits_bounds [OF n] have lo: "2 ^ (bits ?n - 1) \<le> ?n" and hi: "?n < 2 ^ bits ?n"
    by simp_all
  have b: "0 < bits ?n" using n by (simp add: bits.simps [of ?n])
  from True have e: "exponent a = int (bits ?n - 1)" using b by (simp add: exponent_def)
  have fl: "rat_of_nat ?n \<le> a" and fu: "a < rat_of_nat ?n + 1"
    using True by (simp_all add: of_nat_nat) linarith+
  have "pow2 (exponent a) = rat_of_nat (2 ^ (bits ?n - 1))" by (simp add: e pow2_nat)
  also have "\<dots> \<le> rat_of_nat ?n" using lo by (simp only: of_nat_le_iff)
  also have "\<dots> \<le> a" by (rule fl)
  finally have l: "pow2 (exponent a) \<le> a" .
  have "Suc ?n \<le> 2 ^ bits ?n" using hi by (rule Suc_leI)
  then have "rat_of_nat (Suc ?n) \<le> rat_of_nat (2 ^ bits ?n)" by (simp only: of_nat_le_iff)
  then have "rat_of_nat ?n + 1 \<le> 2 ^ bits ?n" by simp
  with fu have "a < 2 ^ bits ?n" by linarith
  moreover have "pow2 (exponent a + 1) = 2 ^ bits ?n"
  proof -
    have "exponent a + 1 = int (bits ?n)" using e b by simp
    then show ?thesis by (simp add: pow2_nat)
  qed
  ultimately show ?thesis using l by simp
next
  case False
  let ?b = "1 / a"
  let ?m = "nat (\<lceil>?b\<rceil> - 1)"
  from False assms have b1: "1 < ?b" by simp
  then have "1 < \<lceil>?b\<rceil>" by linarith
  then have m: "0 < ?m" by simp
  from bits_bounds [OF m] have lo: "2 ^ (bits ?m - 1) \<le> ?m" and hi: "?m < 2 ^ bits ?m"
    by simp_all
  have bp: "0 < bits ?m" using m by (simp add: bits.simps [of ?m])
  have e: "exponent a = - int (bits ?m)" using False by (simp add: exponent_def)
  have ml: "rat_of_nat ?m < ?b" and mu: "?b \<le> rat_of_nat ?m + 1"
    using \<open>1 < \<lceil>?b\<rceil>\<close> by (simp_all add: of_nat_nat) linarith+
  have "Suc ?m \<le> 2 ^ bits ?m" using hi by (rule Suc_leI)
  then have "rat_of_nat (Suc ?m) \<le> rat_of_nat (2 ^ bits ?m)" by (simp only: of_nat_le_iff)
  then have "rat_of_nat ?m + 1 \<le> 2 ^ bits ?m" by simp
  with mu have "?b \<le> 2 ^ bits ?m" by linarith
  then have l: "1 / 2 ^ bits ?m \<le> a" using assms by (simp add: field_simps)
  have "rat_of_nat (2 ^ (bits ?m - 1)) \<le> rat_of_nat ?m" using lo by (simp only: of_nat_le_iff)
  moreover have "rat_of_nat (2 ^ (bits ?m - 1)) = 2 ^ (bits ?m - 1)" by simp
  ultimately have "2 ^ (bits ?m - 1) \<le> rat_of_nat ?m" by (simp only:)
  then have "2 ^ (bits ?m - 1) < ?b" using ml by (rule le_less_trans)
  then have u: "a < 1 / 2 ^ (bits ?m - 1)" using assms by (simp add: field_simps)
  have "exponent a + 1 = - int (bits ?m - 1)" using e bp by simp
  then have "pow2 (exponent a + 1) = 1 / 2 ^ (bits ?m - 1)" by (simp only: pow2_neg)
  moreover have "pow2 (exponent a) = 1 / 2 ^ bits ?m" by (simp only: e pow2_neg)
  ultimately show ?thesis using l u by simp
qed

lemma roundTiesToEven_error: "\<bar>of_int (roundTiesToEven r) - r\<bar> \<le> 1 / 2"
proof -
  define f where "f = \<lfloor>r\<rfloor>"
  define d where "d = r - of_int f"
  have d0: "0 \<le> d" and d1: "d < 1" unfolding d_def f_def by linarith+
  have r: "r = of_int f + d" by (simp add: d_def)
  have v: "roundTiesToEven r =
      (if d < 1 / 2 then f else if 1 / 2 < d then f + 1 else if even f then f else f + 1)"
    by (simp add: roundTiesToEven_def Let_def f_def d_def)
  consider "d < 1 / 2" | "1 / 2 < d" | "d = 1 / 2" by linarith
  then show ?thesis
  proof cases
    case 1
    then have "roundTiesToEven r = f" by (simp add: v)
    with 1 d0 r show ?thesis by simp
  next
    case 2
    then have "roundTiesToEven r = f + 1" by (simp add: v)
    with 2 d1 r show ?thesis by simp
  next
    case 3
    then have "roundTiesToEven r = f \<or> roundTiesToEven r = f + 1" by (simp add: v)
    with 3 r show ?thesis by auto
  qed
qed

lemma fl_error: "\<bar>fl x - x\<bar> \<le> pow2 (exponent \<bar>x\<bar> - 52) / 2"
proof (cases "x = 0")
  case True
  then show ?thesis using pow2_pos [of "exponent \<bar>x\<bar> - 52"] by (simp add: fl_def)
next
  case False
  let ?u = "pow2 (exponent \<bar>x\<bar> - 52)"
  let ?n = "roundTiesToEven (\<bar>x\<bar> / ?u)"
  have u: "0 < ?u" by (rule pow2_pos)
  have "fl x - x = sgn x * (of_int ?n * ?u - \<bar>x\<bar>)"
    using False by (simp add: fl_def Let_def algebra_simps flip: mult_sgn_abs) (simp add: sgn_if)
  then have "\<bar>fl x - x\<bar> = \<bar>of_int ?n * ?u - \<bar>x\<bar>\<bar>"
    using False by (simp add: abs_mult abs_sgn_eq)
  also have "\<dots> = \<bar>of_int ?n - \<bar>x\<bar> / ?u\<bar> * ?u"
    using u by (simp add: abs_mult_pos [symmetric] field_simps)
  also have "\<dots> \<le> 1 / 2 * ?u"
    using roundTiesToEven_error [of "\<bar>x\<bar> / ?u"] u by (intro mult_right_mono) simp_all
  finally show ?thesis by simp
qed


lemma pow2_add_nat: "pow2 (e + int k) = 2 ^ k * pow2 e"
proof (induction k)
  case 0
  then show ?case by simp
next
  case (Suc k)
  have "e + int (Suc k) = (e + int k) + 1" by simp
  then have "pow2 (e + int (Suc k)) = pow2 ((e + int k) + 1)" by (simp only:)
  also have "\<dots> = 2 * pow2 (e + int k)" by (rule pow2_Suc)
  finally show ?case by (simp add: Suc.IH)
qed

lemma fl_significand:
  assumes "x \<noteq> 0"
  shows "\<exists>n. fl x = sgn x * of_int n * pow2 (exponent \<bar>x\<bar> - 52) \<and> 2 ^ 52 \<le> n \<and> n \<le> 2 ^ 53"
proof -
  let ?e = "exponent \<bar>x\<bar>"
  let ?u = "pow2 (?e - 52)"
  let ?r = "\<bar>x\<bar> / ?u"
  let ?n = "roundTiesToEven ?r"
  have u: "0 < ?u" by (rule pow2_pos)
  from assms have "0 < \<bar>x\<bar>" by simp
  from exponent_bounds [OF this] have lo: "pow2 ?e \<le> \<bar>x\<bar>" and hi: "\<bar>x\<bar> < pow2 (?e + 1)"
    by simp_all
  have e: "pow2 ?e = 2 ^ 52 * ?u" using pow2_add_nat [of "?e - 52" 52] by simp
  have "?e - 52 + int 53 = ?e + 1" by simp
  with pow2_add_nat [of "?e - 52" 53] have e1: "pow2 (?e + 1) = 2 ^ 53 * ?u" by (simp only:)
  from lo e u have rl: "2 ^ 52 \<le> ?r" by (simp add: field_simps)
  from hi e1 u have rh: "?r < 2 ^ 53" by (simp add: field_simps)
  from roundTiesToEven_error [of ?r]
  have "?r - 1 / 2 \<le> rat_of_int ?n" and "rat_of_int ?n \<le> ?r + 1 / 2" by linarith+
  with rl rh have "rat_of_int (2 ^ 52) - 1 / 2 \<le> rat_of_int ?n"
    and "rat_of_int ?n < rat_of_int (2 ^ 53) + 1 / 2" by simp_all
  then have "rat_of_int (2 ^ 52 - 1) < rat_of_int ?n" and "rat_of_int ?n < rat_of_int (2 ^ 53 + 1)"
    by simp_all
  then have "2 ^ 52 - 1 < ?n" and "?n < 2 ^ 53 + 1" by (simp_all only: of_int_less_iff)
  then have "2 ^ 52 \<le> ?n" and "?n \<le> 2 ^ 53" by simp_all
  moreover have "fl x = sgn x * of_int ?n * ?u" using assms by (simp add: fl_def Let_def)
  ultimately show ?thesis by blast
qed

section \<open>Hour totals and double values\<close>

lemma add_drive_longest_mono:
  "longest (streaks s) \<le> longest (streaks (drivingReducer z today s (ADD_DRIVE p)))"
  by (simp add: Let_def)

lemma fl_zero: "fl 0 = 0"
  by (simp add: fl_def)

lemma double_add_zero: "isDouble a \<Longrightarrow> double_add a 0 = a"
  by (simp add: isDouble_def double_add_def)

lemma double_div_90_60: "double_div 90 60 = 3 / 2"
  by code_simp

text \<open>Known doubles: 0.1, and 0.1 + 0.2 = 0.30000000000000004.\<close>

lemma fl_tenth: "fl (1 / 10) = 3602879701896397 / 36028797018963968"
  by code_simp

lemma double_add_tenths:
  "double_add (fl (1 / 10)) (fl (2 / 10)) = 1351079888211149 / 4503599627370496"
  by code_simp

text \<open>Values of the hour arithmetic at the inputs used below.\<close>

lemma negative_hour: "double_add 0 (double_div (- 60) 60) = - 1"
  by code_simp

lemma one_hour: "double_add 0 (double_div 60 60) = 1"
  by code_simp

lemma two_and_a_half: "isDouble (1 + 3 / 2)"
  by code_simp

lemma half_hour_sum:
  "double_add (double_add 0 (double_div 1 60)) (double_div 31 60)
     = 2401919801264265 / 4503599627370496"
  by code_simp

lemma half_hour_sum_plus:
  "double_add (2401919801264265 / 4503599627370496) (double_div 90 60)
     = 1144664905290001 / 562949953421312"
  by code_simp

section \<open>Saving: what each outcome leaves on disk\<close>

lemma saveData_result:
  "fst (saveData faults fs data) =
     (\<not> faults (GetInfo DATA_DIR) \<and> (dir fs \<or> \<not> faults MakeDirectory)
      \<and> \<not> faults (GetInfo MAIN_DATA_FILE)
      \<and> (main_file fs = None \<or> \<not> faults (Copy MAIN_DATA_FILE BACKUP_DATA_FILE))
      \<and> \<not> faults (WriteAsString MAIN_DATA_FILE))"
  by (auto simp: saveData_def ensureDirectoryExists_def getInfoAsync_def makeDirectoryAsync_def
      copyAsync_def writeAsStringAsync_def content_def put_def split: option.splits)

lemma saveData_success:
  "fst (saveData faults fs data) \<Longrightarrow>
     main_file (snd (saveData faults fs data)) = Some (JSON_stringify data)
   \<and> backup_file (snd (saveData faults fs data)) =
       (case main_file fs of None \<Rightarrow> backup_file fs | Some old \<Rightarrow> Some old)"
  by (auto simp: saveData_def ensureDirectoryExists_def getInfoAsync_def makeDirectoryAsync_def
      copyAsync_def writeAsStringAsync_def content_def put_def split: option.splits if_splits)

lemma saveData_order:
  "main_file fs = Some old \<Longrightarrow>
     main_file (snd (saveData faults fs data)) = Some old
   \<or> (main_file (snd (saveData faults fs data)) = Some (JSON_stringify data)
      \<and> backup_file (snd (saveData faults fs data)) = Some old)"
  by (auto simp: saveData_def ensureDirectoryExists_def getInfoAsync_def makeDirectoryAsync_def
      copyAsync_def writeAsStringAsync_def content_def put_def split: option.splits if_splits)

lemma saveData_write_fails:
  "main_file fs = Some old \<Longrightarrow> faults (WriteAsString MAIN_DATA_FILE) \<Longrightarrow>
   \<not> faults (GetInfo DATA_DIR) \<Longrightarrow> dir fs \<or> \<not> faults MakeDirectory \<Longrightarrow>
   \<not> faults (GetInfo MAIN_DATA_FILE) \<Longrightarrow> \<not> faults (Copy MAIN_DATA_FILE BACKUP_DATA_FILE) \<Longrightarrow>
     fst (saveData faults fs data) = False
   \<and> main_file (snd (saveData faults fs data)) = Some old
   \<and> backup_file (snd (saveData faults fs data)) = Some old"
  by (auto simp: saveData_def ensureDirectoryExists_def getInfoAsync_def makeDirectoryAsync_def
      copyAsync_def writeAsStringAsync_def content_def put_def split: option.splits if_splits)

lemma saveData_copy_fails:
  "faults (Copy MAIN_DATA_FILE BACKUP_DATA_FILE) \<Longrightarrow> main_file fs = Some old \<Longrightarrow>
     fst (saveData faults fs data) = False
   \<and> main_file (snd (saveData faults fs data)) = Some old
   \<and> backup_file (snd (saveData faults fs data)) = backup_file fs"
  by (auto simp: saveData_def ensureDirectoryExists_def getInfoAsync_def makeDirectoryAsync_def
      copyAsync_def writeAsStringAsync_def content_def put_def split: option.splits if_splits)

text \<open>
  The part of the recovery chain that works: with no failing call, a primary file that
  does not parse and a backup that does, \<open>loadData\<close> returns the backup's value and
  writes it as the new primary (the old primary becomes the backup).
\<close>

lemma loadData_promotes_backup:
  assumes "main_file fs = Some (Unparseable s)" and "backup_file fs = Some (Serialized b)"
  shows "loadData (\<lambda>op. False) fs =
           (b, fs\<lparr> dir := True, main_file := Some (Serialized b),
                    backup_file := Some (Unparseable s) \<rparr>)"
  using assms
  by (cases "dir fs")
     (simp_all add: loadData_def loadData_main_def loadData_backup_def saveData_def
        ensureDirectoryExists_def getInfoAsync_def makeDirectoryAsync_def
        readAsStringAsync_def copyAsync_def writeAsStringAsync_def content_def put_def
        JSON_parse_def JSON_stringify_def)

section \<open>Clock strings\<close>

lemma digit_not_colon: "digit c \<Longrightarrow> c \<noteq> CHR '':''"
  by (auto simp: digit_def)

lemma digit6: "c \<in> set ''012345'' \<Longrightarrow> digit c"
  by (auto simp: digit_def)

lemma digit_value_le: "digit c \<Longrightarrow> digit_value c \<le> 9"
  by (auto simp: digit_def digit_value_def)

lemma Number_digits_ok: "Number_on_digits Number_digits"
  by (simp add: Number_on_digits_def Number_digits_def)


lemma split_no_separator: "c \<notin> set s \<Longrightarrow> split c s = [s]"
  by (induction s) auto

lemma js_add_NaN: "js_add x NaN = NaN"
  by (cases x) simp_all

lemma timeToMinutes_no_colon:
  "CHR '':'' \<notin> set time \<Longrightarrow> timeToMinutes number time = NaN"
  by (simp add: timeToMinutes_def split_no_separator element_def toNumber_def js_add_NaN)

lemma timeToMinutes_H_MM:
  assumes "Number_on_digits number" and "digit h" and "digit m1" and "digit m2"
  shows "timeToMinutes number [h, CHR '':'', m1, m2] =
           Num (of_nat (decimal [h] * 60 + decimal [m1, m2]))"
proof -
  from assms(2-4) have "split CHR '':'' [h, CHR '':'', m1, m2] = [[h], [m1, m2]]"
    by (simp add: digit_not_colon)
  moreover from assms have "number [h] = Num (of_nat (decimal [h]))"
    and "number [m1, m2] = Num (of_nat (decimal [m1, m2]))"
    by (simp_all add: Number_on_digits_def)
  ultimately show ?thesis
    by (simp add: timeToMinutes_def element_def toNumber_def)
qed

lemma timeToMinutes_HH_MM:
  assumes "Number_on_digits number" and "digit h1" and "digit h2" and "digit m1" and "digit m2"
  shows "timeToMinutes number [h1, h2, CHR '':'', m1, m2] =
           Num (of_nat (decimal [h1, h2] * 60 + decimal [m1, m2]))"
proof -
  from assms(2-5) have "split CHR '':'' [h1, h2, CHR '':'', m1, m2] = [[h1, h2], [m1, m2]]"
    by (simp add: digit_not_colon)
  moreover from assms have "number [h1, h2] = Num (of_nat (decimal [h1, h2]))"
    and "number [m1, m2] = Num (of_nat (decimal [m1, m2]))"
    by (simp_all add: Number_on_digits_def)
  ultimately show ?thesis
    by (simp add: timeToMinutes_def element_def toNumber_def)
qed

lemma minutes_range: "m1 \<in> set ''012345'' \<Longrightarrow> digit m2 \<Longrightarrow> decimal [m1, m2] < 60"
  using digit_value_le [of m2] by (auto simp: decimal_def digit_value_def)

lemma hours_range:
  "(h1 \<in> set ''01'' \<and> digit h2) \<or> (h1 = CHR ''2'' \<and> h2 \<in> set ''0123'') \<Longrightarrow>
   decimal [h1, h2] < 24"
  using digit_value_le [of h2] by (auto simp: decimal_def digit_value_def)

lemma hours_digits:
  "(h1 \<in> set ''01'' \<and> digit h2) \<or> (h1 = CHR ''2'' \<and> h2 \<in> set ''0123'') \<Longrightarrow>
   digit h1 \<and> digit h2"
  by (auto simp: digit_def)

lemma hour_range: "digit h \<Longrightarrow> decimal [h] < 24"
  using digit_value_le [of h] by (simp add: decimal_def)

lemma isValidTime_shape:
  assumes "isValidTime time"
  shows "(\<exists>h m1 m2. time = [h, CHR '':'', m1, m2] \<and> digit h \<and> m1 \<in> set ''012345'' \<and> digit m2)
       \<or> (\<exists>h1 h2 m1 m2. time = [h1, h2, CHR '':'', m1, m2]
            \<and> ((h1 \<in> set ''01'' \<and> digit h2) \<or> (h1 = CHR ''2'' \<and> h2 \<in> set ''0123''))
            \<and> m1 \<in> set ''012345'' \<and> digit m2)"
  using assms unfolding isValidTime_def
  by (simp split: list.splits)

section \<open>Dates after today, sample days, one step of the reducer\<close>

lemma streak_loop_skip_future:
  "sorted_wrt (>) ds \<Longrightarrow>
   streak_loop 0 (T - 1) T 0 (filter (\<lambda>d. d \<le> T) ds) = streak_loop 0 (T - 1) T 0 ds"
proof (induction ds)
  case Nil
  then show ?case by simp
next
  case (Cons d ds)
  show ?case
  proof (cases "d \<le> T")
    case True
    with Cons.prems have "\<forall>x\<in>set (d # ds). x \<le> T" by auto
    then have "filter (\<lambda>d. d \<le> T) (d # ds) = d # ds" by (simp only: filter_id_conv)
    then show ?thesis by simp
  next
    case False
    with Cons show ?thesis by (simp add: Let_def)
  qed
qed

lemma driveDays_iff: "n \<in> driveDays drvs \<longleftrightarrow> (\<exists>d\<in>set drvs. date d = Some n)"
  by (force simp: driveDays_def dayOf_def image_iff split: option.splits)

lemma driveDays_not_future:
  "driveDays (filter (\<lambda>d. \<not> futureDrive today d) drvs) = {n \<in> driveDays drvs. n \<le> today}"
proof (rule set_eqI)
  fix n
  have "(\<exists>d\<in>set drvs. \<not> futureDrive today d \<and> date d = Some n)
          \<longleftrightarrow> (\<exists>d\<in>set drvs. date d = Some n) \<and> n \<le> today"
    by (force simp: futureDrive_def)
  then show "n \<in> driveDays (filter (\<lambda>d. \<not> futureDrive today d) drvs)
          \<longleftrightarrow> n \<in> {n \<in> driveDays drvs. n \<le> today}"
    by (auto simp: driveDays_iff)
qed

lemma sorted_list_of_set_filtered:
  fixes A :: "int set"
  assumes "finite A"
  shows "sorted_list_of_set {n \<in> A. P n} = filter P (sorted_list_of_set A)"
proof -
  have "sorted (filter P (sorted_list_of_set A))" by (simp add: sorted_wrt_filter)
  moreover have "distinct (filter P (sorted_list_of_set A))" by simp
  moreover have "set (filter P (sorted_list_of_set A)) = set (sorted_list_of_set {n \<in> A. P n})"
    using assms by auto
  ultimately show ?thesis
    by (intro sorted_distinct_set_unique) simp_all
qed

text \<open>
  In a zone at or east of UTC, where a date falls on its own local day, drives dated
  after today do not change the current streak.
\<close>

lemma future_drives_skipped_east:
  assumes "0 \<le> z" and "z < 1440"
  shows "calculateCurrentStreak z today (filter (\<lambda>d. \<not> futureDrive today d) drvs) =
         calculateCurrentStreak z today drvs"
proof -
  let ?xs = "sorted_list_of_set (driveDays drvs)"
  have fin: "finite (driveDays drvs)" by (simp add: driveDays_def)
  have "sorted_wrt (<) ?xs" by (simp add: strict_sorted_iff)
  then have desc: "sorted_wrt (>) (rev ?xs)" by (simp add: sorted_wrt_rev)
  have "rev (sorted_list_of_set (driveDays (filter (\<lambda>d. \<not> futureDrive today d) drvs)))
          = filter (\<lambda>n. n \<le> today) (rev ?xs)"
    by (simp add: driveDays_not_future sorted_list_of_set_filtered [OF fin] rev_filter)
  then show ?thesis
    by (simp add: calculateCurrentStreak_walk streak_loop_east [OF assms]
        streak_loop_skip_future [OF desc])
qed

lemma sample_days:
  "driveDays [sample_drive i a m n, sample_drive j b m' n', sample_drive k c m'' n''] = {a, b, c}"
  "driveDays [sample_drive i a m n, sample_drive j b m' n'] = {a, b}"
  by (auto simp: driveDays_def sample_drive_def dayOf_def)


section \<open>Claims\<close>

text \<open>
  C1. The claim: \<open>streaks.longest\<close> never decreases across \<open>ADD_DRIVE\<close>, \<open>UPDATE_DRIVE\<close>
  and \<open>DELETE_DRIVE\<close>. \<open>ADD_DRIVE\<close> keeps the maximum of the old value and the fresh one
  (\<open>add_drive_longest_mono\<close>), but \<open>DELETE_DRIVE\<close> and \<open>UPDATE_DRIVE\<close> store the fresh value
  alone. The theorem runs the reducer where this shows: after one drive is added to the
  initial state \<open>longest\<close> is 1, and deleting that drive brings it down to 0.
\<close>

theorem delete_drive_lowers_longest:
  "longest (streaks (drivingReducer z 0 initialState (ADD_DRIVE (sample_drive ''1'' 0 60 False)))) = 1
   \<and> longest (streaks (drivingReducer z 0
         (drivingReducer z 0 initialState (ADD_DRIVE (sample_drive ''1'' 0 60 False)))
         (DELETE_DRIVE ''1''))) = 0"
  by (simp add: initialState_def sample_drive_def calculateLongestStreak_def Set_values_def Let_def)

text \<open>
  C2. The claim: \<open>calculateCurrentStreak\<close> is the walk over the unique dates in
  descending order in which a date equal to the check date or to the check date minus
  one day continues the streak; drives on 2024-01-01, 2024-01-02 and 2024-01-03 (days
  19723 to 19725) give 3 when today is 2024-01-03 and 0 when today is 2024-01-05. The code
  compares with the check date and with \<open>yesterday\<close>, fixed before the loop, and after a
  match on yesterday the check date is yesterday too, so the next date stops the walk
  although there is no gap. The theorem runs the code where this shows. In UTC, with
  today = day 10 and drives on days 9 and 8, the code returns 1 and the walk of the claim
  returns 2. The two examples of the claim hold in UTC; five hours west of UTC the first
  one returns 1, because each date falls on the local day before.
\<close>

theorem current_streak_run_ending_yesterday:
  "calculateCurrentStreak 0 10 [sample_drive ''a'' 9 60 False, sample_drive ''b'' 8 60 False] = 1
   \<and> spec_currentStreak 10 [sample_drive ''a'' 9 60 False, sample_drive ''b'' 8 60 False] = 2
   \<and> calculateCurrentStreak 0 19725
       [sample_drive ''a'' 19723 60 False, sample_drive ''b'' 19724 60 False,
        sample_drive ''c'' 19725 60 False] = 3
   \<and> calculateCurrentStreak 0 19727
       [sample_drive ''a'' 19723 60 False, sample_drive ''b'' 19724 60 False,
        sample_drive ''c'' 19725 60 False] = 0
   \<and> calculateCurrentStreak (- 300) 19725
       [sample_drive ''a'' 19723 60 False, sample_drive ''b'' 19724 60 False,
        sample_drive ''c'' 19725 60 False] = 1"
proof -
  have "sorted_list_of_set (set [9, 8 :: int]) = sort (remdups [9, 8])"
    by (rule sorted_list_of_set_sort_remdups)
  then have s2: "sorted_list_of_set {9, 8 :: int} = [8, 9]"
    by simp
  have "sorted_list_of_set (set [19723, 19724, 19725 :: int]) = sort (remdups [19723, 19724, 19725])"
    by (rule sorted_list_of_set_sort_remdups)
  then have s3: "sorted_list_of_set {19723, 19724, 19725 :: int} = [19723, 19724, 19725]"
    by simp
  show ?thesis
    by (simp add: calculateCurrentStreak_walk spec_currentStreak_def sample_days s2 s3
        Let_def localDay_def)
qed

text \<open>
  C3. The claim: when the primary file is unreadable, \<open>loadData\<close> validates the backup
  before promoting it, and falls back to the default document when the backup is invalid
  too. The primary file is checked for \<open>user\<close>, \<open>drives\<close>, \<open>streaks\<close> and \<open>settings\<close>; the
  backup is parsed and returned unchecked. The theorem runs \<open>loadData\<close> on a primary file
  that does not parse and a backup holding \<open>{}\<close>: the result is \<open>{}\<close>, which fails the
  structure check and is not the default document, and it is written as the new primary.
\<close>

theorem loadData_unvalidated_backup:
  "loadData (\<lambda>op. False)
     \<lparr> dir = True, main_file = Some (Unparseable ''{oops''),
       backup_file = Some (Serialized (JObj [])) \<rparr>
   = (JObj [],
      \<lparr> dir = True, main_file = Some (Serialized (JObj [])),
        backup_file = Some (Unparseable ''{oops'') \<rparr>)
   \<and> validate (JObj []) = Inl InvalidDataStructure
   \<and> JObj [] \<noteq> DEFAULT_DATA"
  by (simp add: loadData_def loadData_main_def loadData_backup_def saveData_def
      ensureDirectoryExists_def getInfoAsync_def readAsStringAsync_def copyAsync_def
      writeAsStringAsync_def content_def put_def JSON_parse_def JSON_stringify_def
      validate_def property_def truthy_def DEFAULT_DATA_def)

text \<open>
  C4, in doubles. Take a state whose \<open>completedDayHours\<close> is the sum of \<open>duration / 60\<close>
  over its non-night drives as the reducer computes it (from left to right, each step
  rounded), whose \<open>completedNightHours\<close> is a double, and whose drive ids stay distinct
  when the new drive is added. \<open>ADD_DRIVE\<close> of a drive with duration 90 and
  \<open>isNightDrive = false\<close> sets \<open>completedDayHours\<close> to the double nearest to its old
  value plus 1.5, which is exactly 1.5 more when that sum is a double, and leaves
  \<open>completedNightHours\<close> as it was; \<open>DELETE_DRIVE\<close> of the new drive's id then brings
  \<open>completedDayHours\<close> back to its value before the add.
\<close>

theorem add_then_delete_hours:
  assumes "completedDayHours (user s) = hoursOf False (drives s)"
    and "isDouble (completedNightHours (user s))"
    and "duration p = 90" and "\<not> isNightDrive p"
    and "distinct (map drive_id (drives s @ [p]))"
  shows "completedDayHours (user (drivingReducer z t1 s (ADD_DRIVE p))) =
           fl (completedDayHours (user s) + 3 / 2)
       \<and> (isDouble (completedDayHours (user s) + 3 / 2) \<longrightarrow>
            completedDayHours (user (drivingReducer z t1 s (ADD_DRIVE p))) =
              completedDayHours (user s) + 3 / 2)
       \<and> completedNightHours (user (drivingReducer z t1 s (ADD_DRIVE p))) =
           completedNightHours (user s)
       \<and> completedDayHours (user (drivingReducer z t2 (drivingReducer z t1 s (ADD_DRIVE p))
           (DELETE_DRIVE (drive_id p)))) = completedDayHours (user s)"
proof -
  have keep: "filter (\<lambda>drive. drive_id drive \<noteq> drive_id p) (drives s) = drives s"
    using assms(5) by (auto simp: filter_id_conv image_iff)
  have day: "completedDayHours (user (drivingReducer z t1 s (ADD_DRIVE p))) =
      fl (completedDayHours (user s) + 3 / 2)"
    using assms(3,4) by (simp add: Let_def double_div_90_60) (simp add: double_add_def)
  have night: "completedNightHours (user (drivingReducer z t1 s (ADD_DRIVE p))) =
      completedNightHours (user s)"
    using assms(2,4) by (simp add: Let_def double_add_zero)
  have restored: "completedDayHours (user (drivingReducer z t2 (drivingReducer z t1 s (ADD_DRIVE p))
           (DELETE_DRIVE (drive_id p)))) = completedDayHours (user s)"
    using assms(1) keep by (simp add: Let_def)
  from day have "isDouble (completedDayHours (user s) + 3 / 2) \<longrightarrow>
            completedDayHours (user (drivingReducer z t1 s (ADD_DRIVE p))) =
              completedDayHours (user s) + 3 / 2"
    by (simp add: isDouble_def)
  with day night restored show ?thesis by blast
qed

theorem add_then_delete_hours_witness:
  "completedDayHours (user (drivingReducer 0 0 initialState (ADD_DRIVE (sample_drive ''0'' 0 60 False))))
     = hoursOf False (drives (drivingReducer 0 0 initialState (ADD_DRIVE (sample_drive ''0'' 0 60 False))))
   \<and> distinct (map drive_id
        (drives (drivingReducer 0 0 initialState (ADD_DRIVE (sample_drive ''0'' 0 60 False)))
         @ [sample_drive ''1'' 1 90 False]))
   \<and> completedDayHours (user (drivingReducer 0 0 initialState
         (ADD_DRIVE (sample_drive ''0'' 0 60 False)))) = 1
   \<and> isDouble (1 + 3 / 2)
   \<and> completedDayHours (user (drivingReducer 0 1
         (drivingReducer 0 0 initialState (ADD_DRIVE (sample_drive ''0'' 0 60 False)))
         (ADD_DRIVE (sample_drive ''1'' 1 90 False)))) = 5 / 2
   \<and> completedDayHours (user (drivingReducer 0 2
         (drivingReducer 0 1
            (drivingReducer 0 0 initialState (ADD_DRIVE (sample_drive ''0'' 0 60 False)))
            (ADD_DRIVE (sample_drive ''1'' 1 90 False)))
         (DELETE_DRIVE (drive_id (sample_drive ''1'' 1 90 False))))) = 1"
proof -
  let ?s = "drivingReducer 0 0 initialState (ADD_DRIVE (sample_drive ''0'' 0 60 False))"
  let ?p = "sample_drive ''1'' 1 90 False"
  have v: "completedDayHours (user ?s) = 1"
    by (simp add: initialState_def sample_drive_def Let_def one_hour)
  have h1: "completedDayHours (user ?s) = hoursOf False (drives ?s)"
    by (simp add: initialState_def sample_drive_def Let_def hoursOf_def)
  have h2: "isDouble (completedNightHours (user ?s))"
    by (simp add: initialState_def sample_drive_def Let_def isDouble_def double_add_def fl_zero)
  have h3: "duration ?p = 90" and h4: "\<not> isNightDrive ?p"
    by (simp_all add: sample_drive_def)
  have h5: "distinct (map drive_id (drives ?s @ [?p]))"
    by (simp add: initialState_def sample_drive_def Let_def)
  note r = add_then_delete_hours [OF h1 h2 h3 h4 h5, of 0 1 2]
  have n: "(1 :: rat) + 3 / 2 = 5 / 2" by simp
  have a: "completedDayHours (user (drivingReducer 0 1 ?s (ADD_DRIVE ?p))) = 5 / 2"
    using r [THEN conjunct2, THEN conjunct1, unfolded v, THEN mp, OF two_and_a_half]
    unfolding n .
  have c: "completedDayHours (user (drivingReducer 0 2 (drivingReducer 0 1 ?s (ADD_DRIVE ?p))
             (DELETE_DRIVE (drive_id ?p)))) = 1"
    using r [THEN conjunct2, THEN conjunct2, THEN conjunct2] unfolding v .
  show ?thesis
  proof (intro conjI)
    show "completedDayHours (user ?s) = hoursOf False (drives ?s)" by (rule h1)
    show "distinct (map drive_id (drives ?s @ [?p]))" by (rule h5)
    show "completedDayHours (user ?s) = 1" by (rule v)
    show "isDouble (1 + 3 / 2)" by (rule two_and_a_half)
    show "completedDayHours (user (drivingReducer 0 1 ?s (ADD_DRIVE ?p))) = 5 / 2" by (rule a)
    show "completedDayHours (user (drivingReducer 0 2 (drivingReducer 0 1 ?s (ADD_DRIVE ?p))
             (DELETE_DRIVE (drive_id ?p)))) = 1" by (rule c)
  qed
qed

text \<open>
  C4 as claimed has the increase exactly 1.5 in every such state. After a drive of
  1 minute and a drive of 31 minutes \<open>completedDayHours\<close> is 0.5333333333333334, the
  reducer's own sum; adding 90 minutes gives 2.033333333333333, and the difference of
  the two doubles is 1.5 minus \<open>2 ^ -52\<close>.
\<close>

theorem add_ninety_minutes_rounding_counterexample:
  "completedDayHours (user (run 0 initialState
       [(0, ADD_DRIVE (sample_drive ''1'' 0 1 False)), (0, ADD_DRIVE (sample_drive ''2'' 0 31 False))]))
     = hoursOf False (drives (run 0 initialState
       [(0, ADD_DRIVE (sample_drive ''1'' 0 1 False)), (0, ADD_DRIVE (sample_drive ''2'' 0 31 False))]))
   \<and> completedDayHours (user (run 0 initialState
       [(0, ADD_DRIVE (sample_drive ''1'' 0 1 False)), (0, ADD_DRIVE (sample_drive ''2'' 0 31 False))]))
     = 2401919801264265 / 4503599627370496
   \<and> completedDayHours (user (drivingReducer 0 0
       (run 0 initialState
          [(0, ADD_DRIVE (sample_drive ''1'' 0 1 False)), (0, ADD_DRIVE (sample_drive ''2'' 0 31 False))])
       (ADD_DRIVE (sample_drive ''3'' 0 90 False))))
     = 1144664905290001 / 562949953421312
   \<and> completedDayHours (user (drivingReducer 0 0
       (run 0 initialState
          [(0, ADD_DRIVE (sample_drive ''1'' 0 1 False)), (0, ADD_DRIVE (sample_drive ''2'' 0 31 False))])
       (ADD_DRIVE (sample_drive ''3'' 0 90 False))))
     - completedDayHours (user (run 0 initialState
       [(0, ADD_DRIVE (sample_drive ''1'' 0 1 False)), (0, ADD_DRIVE (sample_drive ''2'' 0 31 False))]))
     \<noteq> 3 / 2"
  by (simp add: initialState_def sample_drive_def Let_def hoursOf_def half_hour_sum
      half_hour_sum_plus)

text \<open>
  C5. \<open>saveData\<close> with a primary file \<open>old\<close> on disk: whatever calls fail, afterwards
  either the primary is still \<open>old\<close>, or the primary is the new serialised document and the
  backup is \<open>old\<close>; when it returns \<open>true\<close> the second holds; when the copy fails the
  primary and the backup are untouched; when only the write fails the backup already
  holds \<open>old\<close> (the copy came first). \<open>saveData\<close> never throws: it returns \<open>true\<close> exactly when
  none of the calls it makes fails, and \<open>false\<close> otherwise.
\<close>

theorem saveData_backup_before_overwrite:
  "(main_file fs = Some old \<longrightarrow>
      (main_file (snd (saveData faults fs data)) = Some old
       \<or> (main_file (snd (saveData faults fs data)) = Some (JSON_stringify data)
          \<and> backup_file (snd (saveData faults fs data)) = Some old))
    \<and> (fst (saveData faults fs data) \<longrightarrow>
         main_file (snd (saveData faults fs data)) = Some (JSON_stringify data)
         \<and> backup_file (snd (saveData faults fs data)) = Some old)
    \<and> (faults (Copy MAIN_DATA_FILE BACKUP_DATA_FILE) \<longrightarrow>
         main_file (snd (saveData faults fs data)) = Some old
         \<and> backup_file (snd (saveData faults fs data)) = backup_file fs)
    \<and> (faults (WriteAsString MAIN_DATA_FILE) \<and> \<not> faults (GetInfo DATA_DIR)
         \<and> (dir fs \<or> \<not> faults MakeDirectory) \<and> \<not> faults (GetInfo MAIN_DATA_FILE)
         \<and> \<not> faults (Copy MAIN_DATA_FILE BACKUP_DATA_FILE) \<longrightarrow>
         main_file (snd (saveData faults fs data)) = Some old
         \<and> backup_file (snd (saveData faults fs data)) = Some old))
   \<and> fst (saveData faults fs data) =
       (\<not> faults (GetInfo DATA_DIR) \<and> (dir fs \<or> \<not> faults MakeDirectory)
        \<and> \<not> faults (GetInfo MAIN_DATA_FILE)
        \<and> (main_file fs = None \<or> \<not> faults (Copy MAIN_DATA_FILE BACKUP_DATA_FILE))
        \<and> \<not> faults (WriteAsString MAIN_DATA_FILE))"
proof (intro conjI impI)
  assume m: "main_file fs = Some old"
  show "main_file (snd (saveData faults fs data)) = Some old
       \<or> (main_file (snd (saveData faults fs data)) = Some (JSON_stringify data)
          \<and> backup_file (snd (saveData faults fs data)) = Some old)"
    using m by (rule saveData_order)
next
  assume "main_file fs = Some old" and "fst (saveData faults fs data)"
  then show "main_file (snd (saveData faults fs data)) = Some (JSON_stringify data)"
    and "backup_file (snd (saveData faults fs data)) = Some old"
    using saveData_success [of faults fs data] by simp_all
next
  assume "main_file fs = Some old" and "faults (Copy MAIN_DATA_FILE BACKUP_DATA_FILE)"
  then show "main_file (snd (saveData faults fs data)) = Some old"
    and "backup_file (snd (saveData faults fs data)) = backup_file fs"
    using saveData_copy_fails [of faults fs old data] by simp_all
next
  assume "main_file fs = Some old"
    and "faults (WriteAsString MAIN_DATA_FILE) \<and> \<not> faults (GetInfo DATA_DIR)
         \<and> (dir fs \<or> \<not> faults MakeDirectory) \<and> \<not> faults (GetInfo MAIN_DATA_FILE)
         \<and> \<not> faults (Copy MAIN_DATA_FILE BACKUP_DATA_FILE)"
  then show "main_file (snd (saveData faults fs data)) = Some old"
    and "backup_file (snd (saveData faults fs data)) = Some old"
    using saveData_write_fails [of fs old faults data] by simp_all
next
  show "fst (saveData faults fs data) =
       (\<not> faults (GetInfo DATA_DIR) \<and> (dir fs \<or> \<not> faults MakeDirectory)
        \<and> \<not> faults (GetInfo MAIN_DATA_FILE)
        \<and> (main_file fs = None \<or> \<not> faults (Copy MAIN_DATA_FILE BACKUP_DATA_FILE))
        \<and> \<not> faults (WriteAsString MAIN_DATA_FILE))"
    by (rule saveData_result)
qed

theorem saveData_backup_before_overwrite_witness:
  "main_file \<lparr> dir = True, main_file = Some (Serialized (JNum 1)),
                backup_file = Some (Serialized (JNum 0)) \<rparr> = Some (Serialized (JNum 1))
   \<and> saveData (\<lambda>op. False)
        \<lparr> dir = True, main_file = Some (Serialized (JNum 1)),
          backup_file = Some (Serialized (JNum 0)) \<rparr> (JNum 2)
      = (True, \<lparr> dir = True, main_file = Some (Serialized (JNum 2)),
                 backup_file = Some (Serialized (JNum 1)) \<rparr>)
   \<and> saveData (\<lambda>op. op = WriteAsString MAIN_DATA_FILE)
        \<lparr> dir = True, main_file = Some (Serialized (JNum 1)),
          backup_file = Some (Serialized (JNum 0)) \<rparr> (JNum 2)
      = (False, \<lparr> dir = True, main_file = Some (Serialized (JNum 1)),
                  backup_file = Some (Serialized (JNum 1)) \<rparr>)
   \<and> saveData (\<lambda>op. op = Copy MAIN_DATA_FILE BACKUP_DATA_FILE)
        \<lparr> dir = True, main_file = Some (Serialized (JNum 1)),
          backup_file = Some (Serialized (JNum 0)) \<rparr> (JNum 2)
      = (False, \<lparr> dir = True, main_file = Some (Serialized (JNum 1)),
                  backup_file = Some (Serialized (JNum 0)) \<rparr>)"
proof -
  let ?fs = "\<lparr> dir = True, main_file = Some (Serialized (JNum 1)),
               backup_file = Some (Serialized (JNum 0)) \<rparr>"
  have d: "dir (snd (saveData f ?fs (JNum 2)))" for f
    by (simp add: saveData_def ensureDirectoryExists_def getInfoAsync_def copyAsync_def
        writeAsStringAsync_def content_def put_def)
  have eq: "r = (fst r, \<lparr> dir = dir (snd r), main_file = main_file (snd r),
                         backup_file = backup_file (snd r) \<rparr>)" for r :: "bool \<times> files"
    by (cases r) simp
  show ?thesis
    using saveData_backup_before_overwrite
            [of ?fs "Serialized (JNum 1)" "\<lambda>op. False" "JNum 2"]
          saveData_backup_before_overwrite
            [of ?fs "Serialized (JNum 1)" "\<lambda>op. op = WriteAsString MAIN_DATA_FILE" "JNum 2"]
          saveData_backup_before_overwrite
            [of ?fs "Serialized (JNum 1)" "\<lambda>op. op = Copy MAIN_DATA_FILE BACKUP_DATA_FILE" "JNum 2"]
          d [of "\<lambda>op. False"] d [of "\<lambda>op. op = WriteAsString MAIN_DATA_FILE"]
          d [of "\<lambda>op. op = Copy MAIN_DATA_FILE BACKUP_DATA_FILE"]
    by (subst (1 2 3) eq) (simp add: JSON_stringify_def)
qed

text \<open>
  C6, as the code has it. \<open>timeToMinutes\<close> validates nothing and raises nothing. On a
  string that \<open>isValidTime\<close> accepts, \<open>H:MM\<close> or \<open>HH:MM\<close>, it returns hours times 60 plus
  minutes, with hours below 24 and minutes below 60; on a string without a colon it
  returns \<open>NaN\<close>; other malformed strings give whatever \<open>Number\<close> makes of their parts.
\<close>

theorem timeToMinutes_valid_time:
  assumes "Number_on_digits number"
  shows "(isValidTime time \<longrightarrow>
           (\<exists>h m. time = h @ CHR '':'' # m \<and> decimal h < 24 \<and> decimal m < 60 \<and>
              timeToMinutes number time = Num (of_nat (decimal h * 60 + decimal m))))
       \<and> (CHR '':'' \<notin> set time \<longrightarrow> timeToMinutes number time = NaN)"
proof (intro conjI impI)
  assume "isValidTime time"
  from isValidTime_shape [OF this]
  consider (short) h m1 m2 where "time = [h, CHR '':'', m1, m2]" and "digit h"
      and "m1 \<in> set ''012345''" and "digit m2"
    | (long) h1 h2 m1 m2 where "time = [h1, h2, CHR '':'', m1, m2]"
      and "(h1 \<in> set ''01'' \<and> digit h2) \<or> (h1 = CHR ''2'' \<and> h2 \<in> set ''0123'')"
      and "m1 \<in> set ''012345''" and "digit m2"
    by blast
  then show "\<exists>h m. time = h @ CHR '':'' # m \<and> decimal h < 24 \<and> decimal m < 60 \<and>
          timeToMinutes number time = Num (of_nat (decimal h * 60 + decimal m))"
  proof cases
    case short
    have "time = [h] @ CHR '':'' # [m1, m2]" using short(1) by simp
    moreover have "decimal [h] < 24" using short(2) by (rule hour_range)
    moreover have "decimal [m1, m2] < 60" using short(3,4) by (rule minutes_range)
    moreover have "timeToMinutes number time = Num (of_nat (decimal [h] * 60 + decimal [m1, m2]))"
      unfolding short(1) using assms short(2) digit6 [OF short(3)] short(4)
      by (rule timeToMinutes_H_MM)
    ultimately show ?thesis by blast
  next
    case long
    have "time = [h1, h2] @ CHR '':'' # [m1, m2]" using long(1) by simp
    moreover have "decimal [h1, h2] < 24" using long(2) by (rule hours_range)
    moreover have "decimal [m1, m2] < 60" using long(3,4) by (rule minutes_range)
    moreover have "timeToMinutes number time =
        Num (of_nat (decimal [h1, h2] * 60 + decimal [m1, m2]))"
      unfolding long(1) using assms hours_digits [OF long(2), THEN conjunct1]
        hours_digits [OF long(2), THEN conjunct2] digit6 [OF long(3)] long(4)
      by (rule timeToMinutes_HH_MM)
    ultimately show ?thesis by blast
  qed
next
  assume "CHR '':'' \<notin> set time"
  then show "timeToMinutes number time = NaN" by (rule timeToMinutes_no_colon)
qed

theorem timeToMinutes_valid_time_witness:
  "Number_on_digits Number_digits \<and> isValidTime ''07:30''
   \<and> timeToMinutes Number_digits ''07:30'' = Num 450
   \<and> timeToMinutes Number_digits ''abc'' = NaN"
proof -
  have ok: "Number_on_digits Number_digits" by (rule Number_digits_ok)
  have v: "isValidTime ''07:30''" by (simp add: isValidTime_def digit_def)
  from timeToMinutes_valid_time [OF ok, of "''07:30''"] v
  obtain h m where "''07:30'' = h @ CHR '':'' # m"
    and "timeToMinutes Number_digits ''07:30'' = Num (of_nat (decimal h * 60 + decimal m))"
    by blast
  moreover from timeToMinutes_valid_time [OF ok, of "''abc''"]
  have "timeToMinutes Number_digits ''abc'' = NaN" by simp
  moreover have "timeToMinutes Number_digits ''07:30'' = Num 450"
    by (simp add: timeToMinutes_def Number_digits_def element_def toNumber_def digit_def
        decimal_def digit_value_def)
  ultimately show ?thesis using ok v by simp
qed

text \<open>
  C6 as claimed has every malformed input fail with a parse error. The string \<open>:\<close> is
  not a valid time, and \<open>timeToMinutes\<close> returns 0 for it: both parts are empty and
  \<open>Number\<close> of the empty string is 0.
\<close>

theorem timeToMinutes_colon_counterexample:
  "\<not> isValidTime '':'' \<and> timeToMinutes Number_digits '':'' = Num 0"
  by (simp add: isValidTime_def timeToMinutes_def Number_digits_def element_def toNumber_def)

text \<open>
  C7, for \<open>ADD_DRIVE\<close>. The reducer does not check an \<open>ADD_DRIVE\<close> payload and does not
  reject it: for every state and every payload, a negative duration included, the drive
  is appended, so the state changes, and \<open>duration / 60\<close> is added to the day or the night
  total.
\<close>

theorem add_drive_unvalidated:
  "drives (drivingReducer z today s (ADD_DRIVE p)) = drives s @ [p]
   \<and> drivingReducer z today s (ADD_DRIVE p) \<noteq> s
   \<and> completedDayHours (user (drivingReducer z today s (ADD_DRIVE p))) =
       double_add (completedDayHours (user s))
         (if isNightDrive p then 0 else double_div (duration p) 60)
   \<and> completedNightHours (user (drivingReducer z today s (ADD_DRIVE p))) =
       double_add (completedNightHours (user s))
         (if isNightDrive p then double_div (duration p) 60 else 0)"
proof -
  have "drives (drivingReducer z today s (ADD_DRIVE p)) \<noteq> drives s"
    by (simp add: Let_def)
  then have "drivingReducer z today s (ADD_DRIVE p) \<noteq> s" by metis
  then show ?thesis by (simp add: Let_def)
qed

text \<open>
  C7 as claimed leaves the state unchanged on an invalid payload. \<open>ADD_DRIVE\<close> with
  duration -60 on the initial state (loaded) appends the drive and sets
  \<open>completedDayHours\<close> to -1.
\<close>

theorem add_drive_negative_duration_counterexample:
  "drivingReducer 0 0 (initialState\<lparr>loading := False\<rparr>) (ADD_DRIVE (sample_drive ''1'' 0 (- 60) False))
     \<noteq> initialState\<lparr>loading := False\<rparr>
   \<and> completedDayHours (user (drivingReducer 0 0 (initialState\<lparr>loading := False\<rparr>)
        (ADD_DRIVE (sample_drive ''1'' 0 (- 60) False)))) = - 1"
  by (simp add: initialState_def sample_drive_def Let_def state.defs negative_hour)



text \<open>
  C9. For every state, \<open>USE_FREEZE_DAY\<close> adds exactly 1 to \<open>streaks.freezeDaysUsed\<close> and
  to \<open>streaks.freezeDaysThisMonth\<close>, whatever their values (no cap is checked, also at
  10 and above), and leaves \<open>user\<close>, \<open>drives\<close>, \<open>settings\<close> and the streak fields
  \<open>current\<close>, \<open>longest\<close>, \<open>lastDriveDate\<close> and \<open>lastFreezeReset\<close> as they were.
\<close>

theorem use_freeze_day_frame:
  "drivingReducer z today s USE_FREEZE_DAY =
     s\<lparr> streaks := (streaks s)
       \<lparr> freezeDaysUsed := freezeDaysUsed (streaks s) + 1,
         freezeDaysThisMonth := freezeDaysThisMonth (streaks s) + 1 \<rparr> \<rparr>
   \<and> freezeDaysUsed (streaks (drivingReducer z today s USE_FREEZE_DAY)) =
       freezeDaysUsed (streaks s) + 1
   \<and> freezeDaysThisMonth (streaks (drivingReducer z today s USE_FREEZE_DAY)) =
       freezeDaysThisMonth (streaks s) + 1
   \<and> user (drivingReducer z today s USE_FREEZE_DAY) = user s
   \<and> drives (drivingReducer z today s USE_FREEZE_DAY) = drives s
   \<and> settings (drivingReducer z today s USE_FREEZE_DAY) = settings s
   \<and> loading (drivingReducer z today s USE_FREEZE_DAY) = loading s
   \<and> error (drivingReducer z today s USE_FREEZE_DAY) = error s
   \<and> current (streaks (drivingReducer z today s USE_FREEZE_DAY)) = current (streaks s)
   \<and> longest (streaks (drivingReducer z today s USE_FREEZE_DAY)) = longest (streaks s)
   \<and> lastDriveDate (streaks (drivingReducer z today s USE_FREEZE_DAY)) =
       lastDriveDate (streaks s)
   \<and> lastFreezeReset (streaks (drivingReducer z today s USE_FREEZE_DAY)) =
       lastFreezeReset (streaks s)"
  by simp

text \<open>
  C10. The claim: drives dated strictly after today never change the result of
  \<open>calculateCurrentStreak\<close>. That holds in a zone at or east of UTC
  (\<open>future_drives_skipped_east\<close>). West of UTC the UTC midnight of a date falls on the
  local day before, so a drive dated tomorrow is compared as today and counted. The
  theorem runs the code five hours west of UTC with today = 2024-01-03 (day 19725) and
  one drive dated 2024-01-04: the result is 1 with the drive and 0 without it.
\<close>

theorem tomorrow_counted_west_of_UTC:
  "futureDrive 19725 (sample_drive ''a'' 19726 60 False)
   \<and> calculateCurrentStreak (- 300) 19725 [sample_drive ''a'' 19726 60 False] = 1
   \<and> calculateCurrentStreak (- 300) 19725
        (filter (\<lambda>d. \<not> futureDrive 19725 d) [sample_drive ''a'' 19726 60 False]) = 0"
  by (simp add: futureDrive_def sample_drive_def calculateCurrentStreak_def Set_values_def
      dayOf_def Let_def localDay_def)

end
